theory Spec2Isabelle
  imports Complex_Main
begin

section \<open>Shared data\<close>

text \<open>
  Floating-point values are real numbers. Where a result of the program depends on
  rounding (the feature normalizer, the smoothing update, the size of the test split),
  every float32 and float64 operation rounds its exact result, as defined below. The
  calibration grid and the pixel position of the overlay are computed in exact
  arithmetic. Exceptions are values of the type \<open>error\<close>; a function that may raise
  returns \<open>error + 'a\<close>.
\<close>

datatype error =
    ValueError
  | IndexError
  | KeyError
  | ZeroDivisionError
  | FileNotFoundError
  | FileExistsError
  | IsADirectoryError

type_synonym point = "real \<times> real"

section \<open>Calibration grid (\<open>calibration.py\<close>, \<open>_grid_points\<close>)\<close>

text \<open>
  \<open>np.linspace(start, stop, num)\<close> with the default \<open>endpoint=True\<close>: a negative
  \<open>num\<close> raises \<open>ValueError\<close>; otherwise \<open>arange(num)\<close> is scaled by
  \<open>step = delta / div\<close> when \<open>div = num - 1\<close> is positive and by \<open>delta\<close> when it is
  not, shifted by \<open>start\<close>, and for \<open>num > 1\<close> the last entry is overwritten with
  \<open>stop\<close>.
\<close>

definition linspace :: "real \<Rightarrow> real \<Rightarrow> int \<Rightarrow> error + real list" where
  "linspace start stop num =
     (if num < 0 then Inl ValueError
      else
        let dv = num - 1;
            delta = stop - start;
            y0 = map real [0..<nat num];
            y1 = (if 0 < dv then map (\<lambda>v. v * (delta / real_of_int dv)) y0
                  else map (\<lambda>v. v * delta) y0);
            y2 = map (\<lambda>v. v + start) y1
        in Inr (if 1 < num then y2[length y2 - 1 := stop] else y2))"

definition grid_points :: "int \<Rightarrow> int \<Rightarrow> real \<Rightarrow> error + point list" where
  "grid_points cols rows margin =
     (case linspace margin (1 - margin) cols of
        Inl e \<Rightarrow> Inl e
      | Inr xs \<Rightarrow>
          (case linspace margin (1 - margin) rows of
             Inl e \<Rightarrow> Inl e
           | Inr ys \<Rightarrow> Inr (concat (map (\<lambda>y. map (\<lambda>x. (x, y)) xs) ys))))"

section \<open>Floating-point rounding\<close>

text \<open>
  A float32 or float64 operation returns its exact result rounded to the nearest number
  with 24 or 53 significant bits, ties to the even significand. \<open>fl p x\<close> rounds \<open>x\<close> to
  \<open>p\<close> significant bits: with \<open>2\<^sup>L \<le> \<bar>x\<bar> < 2\<^sup>L\<^sup>+\<^sup>1\<close> the result is the nearest integer
  multiple of \<open>2\<^sup>L\<^sup>-\<^sup>p\<^sup>+\<^sup>1\<close>. The exponent is not bounded: overflow and underflow
  are not modelled.
\<close>

definition round_even :: "real \<Rightarrow> int" where
  "round_even y =
     (let f = \<lfloor>y\<rfloor>; d = y - of_int f
      in if d < 1 / 2 then f else if 1 / 2 < d then f + 1 else if even f then f else f + 1)"

definition fl :: "nat \<Rightarrow> real \<Rightarrow> real" where
  "fl p x =
     (if x = 0 then 0
      else
        let e = \<lfloor>log 2 \<bar>x\<bar>\<rfloor> - int p + 1
        in of_int (round_even (x / 2 powi e)) * 2 powi e)"

definition float32 :: "real \<Rightarrow> real" where
  "float32 = fl 24"

definition float64 :: "real \<Rightarrow> real" where
  "float64 = fl 53"

section \<open>Feature normalizer (\<open>feature_extraction.py\<close>)\<close>

text \<open>
  A landmark set is the list of points of one detected face; the detector's result
  \<open>multi_face_landmarks\<close> is \<open>None\<close> or a list of faces. A feature vector is the four
  scalars \<open>(f1, f2, f3, f4)\<close>.
\<close>

type_synonym feature = "real \<times> real \<times> real \<times> real"

record debug =
  lc :: point
  rc :: point
  mid :: point
  interocular :: real

definition LEFT_EYE_IDX :: "nat list" where
  "LEFT_EYE_IDX = [33, 133, 159, 145]"

definition RIGHT_EYE_IDX :: "nat list" where
  "RIGHT_EYE_IDX = [362, 263, 386, 374]"

text \<open>
  \<open>_landmarks_to_np\<close>: the products \<open>lm.x * w\<close> and \<open>lm.y * h\<close> are Python floats
  (float64); the array stores them as float32.
\<close>

definition landmarks_to_np :: "point list \<Rightarrow> nat \<Rightarrow> nat \<Rightarrow> point list" where
  "landmarks_to_np landmarks w h =
     map (\<lambda>lm. (float32 (float64 (fst lm * real w)), float32 (float64 (snd lm * real h))))
       landmarks"

text \<open>
  \<open>mean(axis=0)\<close> of a float32 array, for one column: the rows are added one after the
  other in float32, starting from the first, and the sum is divided by their number.
\<close>

definition mean32 :: "real list \<Rightarrow> real" where
  "mean32 xs =
     (case xs of
        [] \<Rightarrow> 0
      | x # rest \<Rightarrow> float32 (foldl (\<lambda>s y. float32 (s + y)) x rest / real (length xs)))"

text \<open>
  \<open>_eye_center\<close>: \<open>all_pts[idxs]\<close> raises \<open>IndexError\<close> when an index is out of range.
  Both index lists of the module hold four indices.
\<close>

definition eye_center :: "point list \<Rightarrow> nat list \<Rightarrow> error + point" where
  "eye_center all_pts idxs =
     (if list_all (\<lambda>i. i < length all_pts) idxs
      then
        let sel = map (\<lambda>i. all_pts ! i) idxs
        in Inr (mean32 (map fst sel), mean32 (map snd sel))
      else Inl IndexError)"

text \<open>
  \<open>np.linalg.norm\<close> of a float32 2-vector: the square root of the dot product of the
  vector with itself, in float32.
\<close>

definition norm2 :: "point \<Rightarrow> real" where
  "norm2 v = float32 (sqrt (float32 (float32 (fst v * fst v) + float32 (snd v * snd v))))"

text \<open>
  The norm is a float32 scalar and the literal \<open>1e-6\<close> a Python float. What their sum
  and the quotients by it are depends on the promotion rules of the installed NumPy:
  before NumPy 2 a float32 scalar and a Python float give a float64, so the divisor and
  each quotient are float64, and the quotient is rounded once more when it is stored in
  the float32 feature array; from NumPy 2 on the literal is converted to float32 and the
  sum and the quotients are float32. The flag \<open>nep50\<close> selects the rule of NumPy 2.
\<close>

definition eps64 :: real where
  "eps64 = float64 (1 / 1000000)"

definition add_eps :: "bool \<Rightarrow> real \<Rightarrow> real" where
  "add_eps nep50 x = (if nep50 then float32 (x + float32 eps64) else float64 (x + eps64))"

definition quot :: "bool \<Rightarrow> real \<Rightarrow> real \<Rightarrow> real" where
  "quot nep50 a io = (if nep50 then float32 (a / io) else float32 (float64 (a / io)))"

text \<open>
  \<open>features_from_frame\<close>, given the frame's shape \<open>(h, w)\<close> and what the face mesh
  returned for it. The pair \<open>(None, None)\<close> of the source is \<open>None\<close> here. The
  centroids, their difference, their midpoint \<open>(lc + rc) / 2.0\<close> and the offsets from
  it are float32.
\<close>

definition features_from_frame ::
  "bool \<Rightarrow> nat \<Rightarrow> nat \<Rightarrow> point list list option \<Rightarrow> error + (feature \<times> debug) option" where
  "features_from_frame nep50 h w multi_face_landmarks =
     (case multi_face_landmarks of
        None \<Rightarrow> Inr None
      | Some [] \<Rightarrow> Inr None
      | Some (face # _) \<Rightarrow>
          let pts = landmarks_to_np face w h in
          (case eye_center pts LEFT_EYE_IDX of
             Inl e \<Rightarrow> Inl e
           | Inr l \<Rightarrow>
               (case eye_center pts RIGHT_EYE_IDX of
                  Inl e \<Rightarrow> Inl e
                | Inr r \<Rightarrow>
                    let io = add_eps nep50 (norm2 (float32 (fst r - fst l), float32 (snd r - snd l)));
                        m = (float32 (float32 (fst l + fst r) / 2),
                             float32 (float32 (snd l + snd r) / 2));
                        feat = (quot nep50 (float32 (fst l - fst m)) io,
                                quot nep50 (float32 (snd l - snd m)) io,
                                quot nep50 (float32 (fst r - fst m)) io,
                                quot nep50 (float32 (snd r - snd m)) io)
                    in Inr (Some (feat, \<lparr>lc = l, rc = r, mid = m, interocular = io\<rparr>)))))"

text \<open>Scaling every landmark coordinate by \<open>k\<close> (a zoom of the image).\<close>

definition scale_landmarks :: "real \<Rightarrow> point list \<Rightarrow> point list" where
  "scale_landmarks k landmarks = map (\<lambda>lm. (k * fst lm, k * snd lm)) landmarks"

section \<open>Collaborators and effects\<close>

text \<open>
  One \<open>event\<close> is one poll of the collaborators inside a loop: whether \<open>cap.read()\<close>
  delivered a frame (\<open>ret\<close>), what \<open>fe.features_from_frame(frame)\<close> returns for that
  frame (\<open>extracted\<close>) and what \<open>cv2.waitKey(1)\<close> returns after the frame is shown
  (\<open>key\<close>; 27 is ESC). A face mesh holds every indexed landmark, so the extraction
  does not raise inside the loops. The camera is the list of events still to come. A
  loop that has used up the list is still blocked in \<open>cap.read()\<close>: it has not
  returned. Drawing on the frame and the display window are not modelled.
\<close>

record event =
  ret :: bool
  extracted :: "(feature \<times> debug) option"
  key :: int

text \<open>A collected sample is the dictionary \<open>{"feat": [...], "xy": [nx, ny]}\<close>.\<close>

record sample =
  feat :: "real list"
  xy :: "real list"

datatype phase = Warmup | Dwell | Flash | Estimating

text \<open>
  How a phase ends: it runs to its end and leaves the rest of the stream (\<open>Done\<close>), it
  sees ESC and the run returns (\<open>Escape\<close>), or the stream ends while it still waits
  for a frame (\<open>Starved\<close>).
\<close>

datatype 'a progress = Done 'a "event list" | Escape | Starved phase

text \<open>
  The file system holds directories, CSV files (rows of cells) and serialized model
  packs; \<open>stdout\<close> collects what is printed. Paths are flat names: a missing parent
  directory is not modelled.
\<close>

datatype cell = Str string | Num real

type_synonym row = "cell list"

type_synonym pack = "string \<rightharpoonup> (real list \<Rightarrow> real)"

datatype message =
    SavedSamples nat string
  | EvalR2 real real
  | SavedModel string

record world =
  dirs :: "string set"
  files :: "string \<rightharpoonup> row list"
  artifacts :: "string \<rightharpoonup> pack"
  stdout :: "message list"

datatype py_value = PyNone | PyInt int

text \<open>
  What a call does: it returns a value, raises, or is still blocked in the named phase
  when the events run out.
\<close>

datatype outcome = Returned py_value | Raised error | Blocked phase

text \<open>\<open>os.makedirs(path, exist_ok=True)\<close>.\<close>

definition ensure_dir :: "string \<Rightarrow> world \<Rightarrow> error + world" where
  "ensure_dir path wld =
     (if path = [] then Inl FileNotFoundError
      else if path \<in> dom (files wld) then Inl FileExistsError
      else Inr (wld\<lparr>dirs := insert path (dirs wld)\<rparr>))"

section \<open>Calibration sampler (\<open>calibration.py\<close>, \<open>run_calibration\<close>)\<close>

definition tolist :: "feature \<Rightarrow> real list" where
  "tolist f = (case f of (f1, f2, f3, f4) \<Rightarrow> [f1, f2, f3, f4])"

text \<open>
  Warmup: \<open>for f in range(warmup_frames)\<close>; a failed read uses up an iteration, ESC on
  a shown frame ends the run.
\<close>

fun warmup :: "int \<Rightarrow> event list \<Rightarrow> unit progress" where
  "warmup n [] = (if n \<le> 0 then Done () [] else Starved Warmup)"
| "warmup n (e # es) =
     (if n \<le> 0 then Done () (e # es)
      else if \<not> ret e then warmup (n - 1) es
      else if key e = 27 then Escape
      else warmup (n - 1) es)"

text \<open>
  Dwell: \<open>while collected < dwell_frames\<close>; a failed read is skipped before anything
  else, a frame with a feature appends a sample labelled with the target, and ESC is
  checked after the sample was appended.
\<close>

fun dwell :: "int \<Rightarrow> point \<Rightarrow> int \<Rightarrow> sample list \<Rightarrow> event list \<Rightarrow> sample list progress" where
  "dwell dwell_frames tgt collected samples [] =
     (if collected < dwell_frames then Starved Dwell else Done samples [])"
| "dwell dwell_frames tgt collected samples (e # es) =
     (if \<not> collected < dwell_frames then Done samples (e # es)
      else if \<not> ret e then dwell dwell_frames tgt collected samples es
      else
        (case extracted e of
           Some fd \<Rightarrow>
             (if key e = 27 then Escape
              else dwell dwell_frames tgt (collected + 1)
                     (samples @ [\<lparr>feat = tolist (fst fd), xy = [fst tgt, snd tgt]\<rparr>]) es)
         | None \<Rightarrow>
             (if key e = 27 then Escape
              else dwell dwell_frames tgt collected samples es)))"

text \<open>
  Acknowledgement flash: the loop reads frames until 250 ms have passed and ignores the
  key. Time is not modelled; \<open>reads\<close> is the number of \<open>cap.read()\<close> calls the loop
  makes before the time is up.
\<close>

definition flash_ack :: "nat \<Rightarrow> event list \<Rightarrow> unit progress" where
  "flash_ack reads evs =
     (if reads \<le> length evs then Done () (drop reads evs) else Starved Flash)"

text \<open>
  The loop over the enumerated targets; \<open>ack i\<close> is the number of reads of the flash
  after target \<open>i\<close>.
\<close>

fun targets_loop ::
  "int \<Rightarrow> int \<Rightarrow> (nat \<Rightarrow> nat) \<Rightarrow> (nat \<times> point) list \<Rightarrow> sample list \<Rightarrow> event list
     \<Rightarrow> sample list progress" where
  "targets_loop warmup_frames dwell_frames ack [] samples evs = Done samples evs"
| "targets_loop warmup_frames dwell_frames ack ((i, p) # ps) samples evs =
     (case warmup warmup_frames evs of
        Escape \<Rightarrow> Escape
      | Starved ph \<Rightarrow> Starved ph
      | Done _ evs1 \<Rightarrow>
          (case dwell dwell_frames p 0 samples evs1 of
             Escape \<Rightarrow> Escape
           | Starved ph \<Rightarrow> Starved ph
           | Done samples' evs2 \<Rightarrow>
               (case flash_ack (ack i) evs2 of
                  Escape \<Rightarrow> Escape
                | Starved ph \<Rightarrow> Starved ph
                | Done _ evs3 \<Rightarrow> targets_loop warmup_frames dwell_frames ack ps samples' evs3)))"

definition csv_header :: row where
  "csv_header = [Str ''f1'', Str ''f2'', Str ''f3'', Str ''f4'', Str ''tx'', Str ''ty'']"

text \<open>The \<open>with open(out_csv, "w")\<close> block: the file is replaced by header and rows.\<close>

definition write_csv :: "string \<Rightarrow> sample list \<Rightarrow> world \<Rightarrow> error + world" where
  "write_csv out_csv samples wld =
     (if out_csv = [] then Inl FileNotFoundError
      else if out_csv \<in> dirs wld then Inl IsADirectoryError
      else Inr (wld\<lparr>files := (files wld)
                  (out_csv \<mapsto> csv_header # map (\<lambda>s. map Num (feat s @ xy s)) samples)\<rparr>))"

text \<open>
  \<open>run_calibration\<close>. Both \<open>return\<close> statements of the abort paths and the end of the
  function return \<open>None\<close>; \<open>window_size\<close> only places the drawn target.
\<close>

definition run_calibration ::
  "int \<times> int \<Rightarrow> int \<Rightarrow> int \<Rightarrow> int \<Rightarrow> string \<Rightarrow> (nat \<Rightarrow> nat) \<Rightarrow> event list \<Rightarrow> world
     \<Rightarrow> outcome \<times> world" where
  "run_calibration window_size points_per_grid dwell_frames warmup_frames out_csv ack evs wld =
     (case ensure_dir ''data'' wld of
        Inl e \<Rightarrow> (Raised e, wld)
      | Inr w1 \<Rightarrow>
          (case grid_points points_per_grid points_per_grid 0.15 of
             Inl e \<Rightarrow> (Raised e, w1)
           | Inr points \<Rightarrow>
               (case targets_loop warmup_frames dwell_frames ack (List.enumerate 1 points) [] evs of
                  Escape \<Rightarrow> (Returned PyNone, w1)
                | Starved ph \<Rightarrow> (Blocked ph, w1)
                | Done samples _ \<Rightarrow>
                    (case write_csv out_csv samples w1 of
                       Inl e \<Rightarrow> (Raised e, w1)
                     | Inr w2 \<Rightarrow>
                         (Returned PyNone,
                          w2\<lparr>stdout := stdout w2 @ [SavedSamples (length samples) out_csv]\<rparr>)))))"

text \<open>
  A frame counts toward the dwell quota when it was read and a feature was extracted
  from it.
\<close>

definition yields_feature :: "event \<Rightarrow> bool" where
  "yields_feature e = (ret e \<and> extracted e \<noteq> None)"

text \<open>The sample the dwell phase records for a counting frame.\<close>

definition sample_of :: "point \<Rightarrow> event \<Rightarrow> sample" where
  "sample_of tgt e = \<lparr>feat = tolist (fst (the (extracted e))), xy = [fst tgt, snd tgt]\<rparr>"

section \<open>Realtime estimator (\<open>utils.py\<close>, \<open>inference.py\<close>)\<close>

text \<open>
  \<open>ema(prev, new, alpha)\<close>; \<open>prev\<close> may be \<open>None\<close>. The caller passes \<open>float32\<close> arrays
  of two entries and a Python float \<open>alpha\<close>. In \<open>(1 - alpha) * prev + alpha * new\<close> the
  difference \<open>1 - alpha\<close> is a \<open>float64\<close>; multiplied with a \<open>float32\<close> array, each scalar
  is converted to \<open>float32\<close>, and both products and their sum are rounded to \<open>float32\<close>.
\<close>

definition ema :: "point option \<Rightarrow> point \<Rightarrow> real \<Rightarrow> point" where
  "ema prev new alpha =
     (case prev of
        None \<Rightarrow> new
      | Some p \<Rightarrow>
          let a = float32 (float64 alpha);
              b = float32 (float64 (1 - float64 alpha))
          in (float32 (float32 (b * fst p) + float32 (a * fst new)),
              float32 (float32 (b * snd p) + float32 (a * snd new))))"

text \<open>Python's \<open>int(x)\<close> on a float truncates toward zero.\<close>

definition py_int :: "real \<Rightarrow> int" where
  "py_int x = (if 0 \<le> x then \<lfloor>x\<rfloor> else \<lceil>x\<rceil>)"

definition denormalize_coords :: "real \<Rightarrow> real \<Rightarrow> int \<Rightarrow> int \<Rightarrow> int \<times> int" where
  "denormalize_coords nx ny w h = (py_int (nx * real_of_int w), py_int (ny * real_of_int h))"

text \<open>
  The state of the loop: the smoothed estimate and, for every frame handed to
  \<open>cv2.imshow\<close>, the overlay drawn on it by \<open>_draw_hud\<close> (the predicted pixel and the
  debug record), or \<open>None\<close> for a raw frame.
\<close>

record rt_state =
  pred_smooth :: "point option"
  shown :: "((int \<times> int) \<times> debug) option list"

datatype control = Continue | Break | Raise error

text \<open>
  One iteration of \<open>while True\<close>. The models are the functions \<open>mx\<close>, \<open>my\<close> computed by
  \<open>predict\<close>; their results are stored in a \<open>float32\<close> array (\<open>np.array([nx, ny],
  dtype=np.float32)\<close>) before they are smoothed. The pacing sleep takes time only; its
  \<open>1.0 / fps_target\<close> raises \<open>ZeroDivisionError\<close> for a zero frame rate.
\<close>

definition realtime_iter ::
  "(real list \<Rightarrow> real) \<Rightarrow> (real list \<Rightarrow> real) \<Rightarrow> int \<times> int \<Rightarrow> int \<Rightarrow> rt_state \<Rightarrow> event
     \<Rightarrow> control \<times> rt_state" where
  "realtime_iter mx my window_size fps_target st e =
     (if \<not> ret e then (Continue, st)
      else
        let st1 =
          (case extracted e of
             Some fd \<Rightarrow>
               let nx = mx (tolist (fst fd));
                   ny = my (tolist (fst fd));
                   pred = (float32 nx, float32 ny);
                   ps = ema (pred_smooth st) pred 0.25;
                   pxy = denormalize_coords (fst ps) (snd ps) (fst window_size) (snd window_size)
               in st\<lparr>pred_smooth := Some ps, shown := shown st @ [Some (pxy, snd fd)]\<rparr>
           | None \<Rightarrow> st\<lparr>shown := shown st @ [None]\<rparr>)
        in if key e = 27 then (Break, st1)
           else if fps_target = 0 then (Raise ZeroDivisionError, st1)
           else (Continue, st1))"

fun realtime_loop ::
  "(real list \<Rightarrow> real) \<Rightarrow> (real list \<Rightarrow> real) \<Rightarrow> int \<times> int \<Rightarrow> int \<Rightarrow> rt_state \<Rightarrow> event list
     \<Rightarrow> outcome \<times> rt_state" where
  "realtime_loop mx my window_size fps_target st [] = (Blocked Estimating, st)"
| "realtime_loop mx my window_size fps_target st (e # es) =
     (case realtime_iter mx my window_size fps_target st e of
        (Continue, st') \<Rightarrow> realtime_loop mx my window_size fps_target st' es
      | (Break, st') \<Rightarrow> (Returned PyNone, st')
      | (Raise err, st') \<Rightarrow> (Raised err, st'))"

text \<open>\<open>run_realtime\<close>: load the pack, look up both models, start with no estimate.\<close>

definition run_realtime ::
  "string \<Rightarrow> int \<times> int \<Rightarrow> int \<Rightarrow> event list \<Rightarrow> world \<Rightarrow> outcome \<times> rt_state" where
  "run_realtime model_path window_size fps_target evs wld =
     (let st0 = \<lparr>pred_smooth = None, shown = []\<rparr> in
      case artifacts wld model_path of
        None \<Rightarrow> (Raised FileNotFoundError, st0)
      | Some pk \<Rightarrow>
          (case pk ''model_x'' of
             None \<Rightarrow> (Raised KeyError, st0)
           | Some mx \<Rightarrow>
               (case pk ''model_y'' of
                  None \<Rightarrow> (Raised KeyError, st0)
                | Some my \<Rightarrow> realtime_loop mx my window_size fps_target st0 evs)))"



section \<open>Model trainer (\<open>train_model.py\<close>)\<close>

text \<open>
  \<open>os.path.dirname\<close> for \<open>/\<close>-separated paths: everything up to the last separator,
  with trailing separators stripped unless nothing else is left.
\<close>

definition dirname :: "string \<Rightarrow> string" where
  "dirname p =
     (let head = rev (dropWhile (\<lambda>c. c \<noteq> CHR ''/'') (rev p))
      in if head \<noteq> [] \<and> \<not> list_all (\<lambda>c. c = CHR ''/'') head
         then rev (dropWhile (\<lambda>c. c = CHR ''/'') (rev head))
         else head)"

text \<open>
  The library calls, modelled after their documented behaviour.
  \<open>np.loadtxt(path, delimiter=",", skiprows=1, dtype=np.float32)\<close> raises
  \<open>FileNotFoundError\<close> for a missing file and \<open>ValueError\<close> for a field that is not a
  number or a row with another number of columns; blank lines are skipped; the result is
  squeezed, so no row or a single row gives a one-dimensional array. A cell \<open>Num x\<close> is a
  field that parses as the number \<open>x\<close>, stored as a float32; a cell \<open>Str s\<close> is a field
  that does not parse. The comment character (code 0x23), which cuts a line short, is not
  modelled: \<open>no_comment\<close> holds of the cells without it.
\<close>

datatype ndarray = Arr1 "real list" | Arr2 "real list list"

fun is_num :: "cell \<Rightarrow> bool" where
  "is_num (Num _) = True"
| "is_num (Str _) = False"

fun num_of :: "cell \<Rightarrow> real" where
  "num_of (Num x) = float32 x"
| "num_of (Str _) = 0"

fun no_comment :: "cell \<Rightarrow> bool" where
  "no_comment (Num _) = True"
| "no_comment (Str s) = (CHR 0x23 \<notin> set s)"

definition loadtxt :: "string \<Rightarrow> world \<Rightarrow> error + ndarray" where
  "loadtxt path wld =
     (if path \<in> dirs wld then Inl IsADirectoryError
      else
        (case files wld path of
           None \<Rightarrow> Inl FileNotFoundError
         | Some rows \<Rightarrow>
             let body = filter (\<lambda>r. r \<noteq> []) (drop 1 rows) in
             if \<not> list_all (list_all is_num) body then Inl ValueError
             else if \<not> list_all (\<lambda>r. length r = length (hd body)) body then Inl ValueError
             else
               Inr (case body of
                      [] \<Rightarrow> Arr1 []
                    | [r] \<Rightarrow> Arr1 (map num_of r)
                    | _ \<Rightarrow> Arr2 (map (map num_of) body))))"

text \<open>\<open>data[:, a:b]\<close>: two indices on a one-dimensional array raise \<open>IndexError\<close>.\<close>

definition slice_cols :: "ndarray \<Rightarrow> nat \<Rightarrow> nat \<Rightarrow> error + real list list" where
  "slice_cols data a b =
     (case data of
        Arr1 _ \<Rightarrow> Inl IndexError
      | Arr2 rows \<Rightarrow> Inr (map (\<lambda>r. take (b - a) (drop a r)) rows))"

text \<open>\<open>y[:, j]\<close> on a two-dimensional array.\<close>

definition column :: "real list list \<Rightarrow> nat \<Rightarrow> error + real list" where
  "column rows j =
     (if list_all (\<lambda>r. j < length r) rows then Inr (map (\<lambda>r. r ! j) rows)
      else Inl IndexError)"

text \<open>
  \<open>train_test_split(X, y, test_size=t, random_state=seed)\<close> for a float \<open>t\<close>: \<open>t\<close>
  outside \<open>(0, 1)\<close> raises \<open>ValueError\<close>; the test set has \<open>ceil(t * n)\<close> rows, the
  product taken in float64, the train set the others, and an empty train set raises
  \<open>ValueError\<close>. \<open>perm seed n\<close> is the seeded generator's permutation of
  \<open>0, \<dots>, n - 1\<close>; its first entries index the test rows.
\<close>

definition train_test_split ::
  "(int \<Rightarrow> nat \<Rightarrow> nat list) \<Rightarrow> real list list \<Rightarrow> real list list \<Rightarrow> real \<Rightarrow> int
     \<Rightarrow> error + (real list list \<times> real list list \<times> real list list \<times> real list list)" where
  "train_test_split perm X y test_size random_state =
     (let n = length X in
      if test_size \<le> 0 \<or> 1 \<le> test_size then Inl ValueError
      else
        let n_test = nat \<lceil>float64 (test_size * real n)\<rceil>;
            n_train = n - n_test
        in if n_train = 0 then Inl ValueError
           else
             let p = perm random_state n;
                 test = take n_test p;
                 train = take n_train (drop n_test p)
             in Inr (map (\<lambda>i. X ! i) train, map (\<lambda>i. X ! i) test,
                     map (\<lambda>i. y ! i) train, map (\<lambda>i. y ! i) test))"

text \<open>\<open>joblib.dump\<close> of the dictionary of both models.\<close>

definition dump :: "pack \<Rightarrow> string \<Rightarrow> world \<Rightarrow> error + world" where
  "dump pk path wld =
     (if path = [] then Inl FileNotFoundError
      else if path \<in> dirs wld then Inl IsADirectoryError
      else Inr (wld\<lparr>artifacts := (artifacts wld)(path \<mapsto> pk)\<rparr>))"

text \<open>
  \<open>train_model\<close>. Fitting a pipeline (\<open>fit\<close>, which yields the fitted predictor) and its
  \<open>R\<^sup>2\<close> score (\<open>score\<close>) are parameters. Every exception of a call propagates.
\<close>

definition train_model ::
  "(real list list \<Rightarrow> real list \<Rightarrow> (real list \<Rightarrow> real)) \<Rightarrow>
   ((real list \<Rightarrow> real) \<Rightarrow> real list list \<Rightarrow> real list \<Rightarrow> real) \<Rightarrow>
   (int \<Rightarrow> nat \<Rightarrow> nat list) \<Rightarrow>
   string \<Rightarrow> string \<Rightarrow> real \<Rightarrow> int \<Rightarrow> world \<Rightarrow> outcome \<times> world" where
  "train_model fit score perm csv_path out_path test_size random_state wld =
     (case ensure_dir (dirname out_path) wld of
        Inl e \<Rightarrow> (Raised e, wld)
      | Inr w1 \<Rightarrow>
     (case loadtxt csv_path w1 of
        Inl e \<Rightarrow> (Raised e, w1)
      | Inr data \<Rightarrow>
     (case slice_cols data 0 4 of
        Inl e \<Rightarrow> (Raised e, w1)
      | Inr X \<Rightarrow>
     (case slice_cols data 4 6 of
        Inl e \<Rightarrow> (Raised e, w1)
      | Inr y \<Rightarrow>
     (case train_test_split perm X y test_size random_state of
        Inl e \<Rightarrow> (Raised e, w1)
      | Inr (Xtr, Xte, ytr, yte) \<Rightarrow>
     (case column ytr 0 of
        Inl e \<Rightarrow> (Raised e, w1)
      | Inr ytr0 \<Rightarrow>
     (case column ytr 1 of
        Inl e \<Rightarrow> (Raised e, w1)
      | Inr ytr1 \<Rightarrow>
     (case column yte 0 of
        Inl e \<Rightarrow> (Raised e, w1)
      | Inr yte0 \<Rightarrow>
     (case column yte 1 of
        Inl e \<Rightarrow> (Raised e, w1)
      | Inr yte1 \<Rightarrow>
          let model_x = fit Xtr ytr0;
              model_y = fit Xtr ytr1;
              r2x = score model_x Xte yte0;
              r2y = score model_y Xte yte1;
              w2 = w1\<lparr>stdout := stdout w1 @ [EvalR2 r2x r2y]\<rparr>
          in (case dump [''model_x'' \<mapsto> model_x, ''model_y'' \<mapsto> model_y] out_path w2 of
                Inl e \<Rightarrow> (Raised e, w2)
              | Inr w3 \<Rightarrow> (Returned PyNone, w3\<lparr>stdout := stdout w3 @ [SavedModel out_path]\<rparr>)))))))))))"

section \<open>Example inputs\<close>

text \<open>
  A shown frame with a face and no key pressed (\<open>waitKey\<close> returns -1), a failed read,
  a shown frame without a face, and a shown frame on which ESC is pressed.
\<close>

definition face_seen :: event where
  "face_seen =
     \<lparr>ret = True,
      extracted = Some ((- 1 / 4, 0, 1 / 4, 0),
        \<lparr>lc = (0, 0), rc = (1 / 1000000, 0), mid = (1 / 2000000, 0), interocular = 1 / 500000\<rparr>),
      key = - 1\<rparr>"

definition lost_frame :: event where
  "lost_frame = \<lparr>ret = False, extracted = None, key = - 1\<rparr>"

definition no_face :: event where
  "no_face = \<lparr>ret = True, extracted = None, key = - 1\<rparr>"

definition esc_pressed :: event where
  "esc_pressed = face_seen\<lparr>key := 27\<rparr>"

text \<open>Every acknowledgement flash reads two frames.\<close>

definition two_reads :: "nat \<Rightarrow> nat" where
  "two_reads i = 2"

text \<open>A world in which an earlier run has left an output file.\<close>

definition old_world :: world where
  "old_world =
     \<lparr>dirs = {''data''},
      files = [''out.csv'' \<mapsto> [csv_header, map Num [0, 0, 0, 0, 1 / 2, 1 / 2]]],
      artifacts = Map.empty,
      stdout = []\<rparr>"

text \<open>
  A world with a dataset of two rows and a dataset whose first data row holds a field
  that is not a number; a trivial fit, score and permutation.
\<close>

definition train_world :: world where
  "train_world =
     \<lparr>dirs = {''data''},
      files = [''data/two.csv'' \<mapsto>
                 [csv_header, map Num [0, 0, 0, 0, 3 / 20, 3 / 20], map Num [1, 1, 1, 1, 17 / 20, 17 / 20]],
               ''data/bad.csv'' \<mapsto>
                 [csv_header, [Num 0, Str ''abc'', Num 0, Num 0, Num (3 / 20), Num (3 / 20)],
                  map Num [1, 1, 1, 1, 17 / 20, 17 / 20]]],
      artifacts = Map.empty,
      stdout = []\<rparr>"

definition fit0 :: "real list list \<Rightarrow> real list \<Rightarrow> (real list \<Rightarrow> real)" where
  "fit0 X y = (\<lambda>v. 0)"

definition score0 :: "(real list \<Rightarrow> real) \<Rightarrow> real list list \<Rightarrow> real list \<Rightarrow> real" where
  "score0 m X y = 0"

definition perm0 :: "int \<Rightarrow> nat \<Rightarrow> nat list" where
  "perm0 seed n = [0..<n]"

section \<open>Properties of rounding\<close>

lemma round_even_of_int: "round_even (of_int n) = n"
  by (simp add: round_even_def)


lemma round_even_minus: "round_even (- y) = - round_even y"
proof (cases "y = of_int \<lfloor>y\<rfloor>")
  case True
  then obtain n where n: "y = of_int n" ..
  have "round_even (- of_int n) = - n"
    using round_even_of_int[of "- n"] by simp
  then show ?thesis unfolding n round_even_of_int .
next
  case False
  have lo: "of_int \<lfloor>y\<rfloor> \<le> y" and hi: "y < of_int \<lfloor>y\<rfloor> + 1" by linarith+
  from False lo have lo': "of_int \<lfloor>y\<rfloor> < y" by linarith
  have fl: "\<lfloor>- y\<rfloor> = - \<lfloor>y\<rfloor> - 1"
  proof (rule floor_unique)
    show "of_int (- \<lfloor>y\<rfloor> - 1) \<le> - y"
      unfolding of_int_diff of_int_minus of_int_1 using hi by linarith
    show "- y < of_int (- \<lfloor>y\<rfloor> - 1) + 1"
      unfolding of_int_diff of_int_minus of_int_1 using lo' by linarith
  qed
  show ?thesis unfolding round_even_def Let_def fl
    using lo' hi by (auto simp: field_simps)
qed

lemma two_powi_pos: "(0::real) < 2 powi k"
  by (simp add: zero_less_power_int)

lemma floor_log2_eq:
  assumes "2 powi L \<le> x" "x < 2 powi (L + 1)"
  shows "\<lfloor>log 2 x\<rfloor> = L"
proof -
  have pos: "0 < x" using assms(1) two_powi_pos[of L] by linarith
  have 1: "(2::real) powr real_of_int L = 2 powi L"
    by (rule powr_real_of_int') simp_all
  have 2: "(2::real) powr real_of_int (L + 1) = 2 powi (L + 1)"
    by (rule powr_real_of_int') simp_all
  show ?thesis
    unfolding floor_log_eq_powr_iff[OF pos, of 2 L, simplified] using assms 1 2 by simp
qed

lemma floor_log2_bounds:
  assumes "0 < x"
  shows "2 powi \<lfloor>log 2 x\<rfloor> \<le> x" "x < 2 powi (\<lfloor>log 2 x\<rfloor> + 1)"
proof -
  let ?L = "\<lfloor>log 2 x\<rfloor>"
  have 1: "(2::real) powr real_of_int ?L = 2 powi ?L"
    by (rule powr_real_of_int') simp_all
  have 2: "(2::real) powr real_of_int (?L + 1) = 2 powi (?L + 1)"
    by (rule powr_real_of_int') simp_all
  have "2 powr real_of_int ?L \<le> x \<and> x < 2 powr real_of_int (?L + 1)"
    using floor_log_eq_powr_iff[OF assms, of 2 ?L] by simp
  then show "2 powi ?L \<le> x" "x < 2 powi (?L + 1)" unfolding 1 2 by blast+
qed

lemma fl_zero: "fl p 0 = 0"
  by (simp add: fl_def)

lemma fl_minus: "fl p (- x) = - fl p x"
  by (simp add: fl_def Let_def round_even_minus)

lemma fl_eval:
  assumes "2 powi L \<le> \<bar>x\<bar>" "\<bar>x\<bar> < 2 powi (L + 1)"
  shows "fl p x = of_int (round_even (x / 2 powi (L - int p + 1))) * 2 powi (L - int p + 1)"
proof -
  have "\<lfloor>log 2 \<bar>x\<bar>\<rfloor> = L" using assms by (rule floor_log2_eq)
  moreover have "0 < \<bar>x\<bar>" using assms(1) two_powi_pos[of L] by linarith
  then have "x \<noteq> 0" by simp
  ultimately show ?thesis by (simp add: fl_def Let_def)
qed


lemma fl_scale:
  "fl p (2 powi j * x) = 2 powi j * fl p x"
proof (cases "x = 0")
  case True
  then show ?thesis by (simp add: fl_def)
next
  case False
  then have ax: "0 < \<bar>x\<bar>" by simp
  define L where "L = \<lfloor>log 2 \<bar>x\<bar>\<rfloor>"
  have b: "2 powi L \<le> \<bar>x\<bar>" "\<bar>x\<bar> < 2 powi (L + 1)"
    using floor_log2_bounds[OF ax] unfolding L_def by simp_all
  have pj: "(0::real) < 2 powi j" by (rule two_powi_pos)
  have abs: "\<bar>2 powi j * x\<bar> = 2 powi j * \<bar>x\<bar>" using pj by (simp add: abs_mult)
  have s1: "(2::real) powi (L + j) = 2 powi j * 2 powi L" by (simp add: power_int_add)
  have s2: "(2::real) powi (L + j + 1) = 2 powi j * 2 powi (L + 1)" by (simp add: power_int_add)
  have b': "2 powi (L + j) \<le> \<bar>2 powi j * x\<bar>" "\<bar>2 powi j * x\<bar> < 2 powi (L + j + 1)"
    unfolding abs s1 s2 using b pj by simp_all
  define e where "e = L - int p + 1"
  have e': "L + j - int p + 1 = e + j" by (simp add: e_def)
  have s3: "(2::real) powi (e + j) = 2 powi j * 2 powi e" by (simp add: power_int_add)
  have q: "2 powi j * x / 2 powi (e + j) = x / 2 powi e"
    unfolding s3 using pj by simp
  have "fl p (2 powi j * x) = of_int (round_even (2 powi j * x / 2 powi (e + j))) * 2 powi (e + j)"
    using fl_eval[OF b', of p] unfolding e' .
  also have "\<dots> = of_int (round_even (x / 2 powi e)) * 2 powi (e + j)"
    by (simp only: q)
  also have "\<dots> = of_int (round_even (x / 2 powi e)) * (2 powi j * 2 powi e)"
    by (simp only: s3)
  also have "\<dots> = 2 powi j * (of_int (round_even (x / 2 powi e)) * 2 powi e)" by simp
  also have "of_int (round_even (x / 2 powi e)) * 2 powi e = fl p x"
    using fl_eval[OF b, of p] unfolding e_def by simp
  finally show ?thesis .
qed

lemma fl_exact:
  assumes "\<bar>m\<bar> < 2 ^ p"
  shows "fl p (of_int m * 2 powi k) = of_int m * 2 powi k"
proof (cases "m = 0")
  case True
  then show ?thesis by (simp add: fl_def)
next
  case False
  define x :: real where "x = of_int m * 2 powi k"
  have am: "0 < \<bar>real_of_int m\<bar>" using False by simp
  define M where "M = \<lfloor>log 2 \<bar>real_of_int m\<bar>\<rfloor>"
  have bm: "2 powi M \<le> \<bar>real_of_int m\<bar>" "\<bar>real_of_int m\<bar> < 2 powi (M + 1)"
    using floor_log2_bounds[OF am] unfolding M_def by simp_all
  have "\<bar>real_of_int m\<bar> = real_of_int \<bar>m\<bar>" by simp
  also have "\<dots> < real_of_int (2 ^ p)" using assms by (simp only: of_int_less_iff)
  finally have up: "\<bar>real_of_int m\<bar> < 2 powi (int p)" by (simp add: power_int_of_nat)
  have Mp: "M < int p"
  proof (rule ccontr)
    assume "\<not> M < int p"
    then have "int p \<le> M" by simp
    then have "(2::real) powi (int p) \<le> 2 powi M" by (intro power_int_increasing) simp_all
    with bm(1) up show False by linarith
  qed
  define d where "d = nat (int p - 1 - M)"
  have d: "int d = int p - 1 - M" using Mp by (simp add: d_def)
  have pk: "(0::real) < 2 powi k" by (rule two_powi_pos)
  have abs: "\<bar>x\<bar> = 2 powi k * \<bar>real_of_int m\<bar>" using pk by (simp add: x_def abs_mult)
  have s1: "(2::real) powi (M + k) = 2 powi k * 2 powi M" by (simp add: power_int_add)
  have s2: "(2::real) powi (M + k + 1) = 2 powi k * 2 powi (M + 1)" by (simp add: power_int_add)
  have bx: "2 powi (M + k) \<le> \<bar>x\<bar>" "\<bar>x\<bar> < 2 powi (M + k + 1)"
    unfolding abs s1 s2 using bm pk by simp_all
  have e: "M + k - int p + 1 = k - int d" using d by simp
  have ev: "fl p x = of_int (round_even (x / 2 powi (k - int d))) * 2 powi (k - int d)"
    using fl_eval[OF bx, of p] unfolding e .
  have s3: "(2::real) powi (k - int d) = 2 powi k / 2 ^ d"
    by (simp add: power_int_diff power_int_of_nat)
  have "x / 2 powi (k - int d) = of_int m * 2 ^ d"
    unfolding s3 x_def using pk by simp
  also have "\<dots> = of_int (m * 2 ^ d)" by simp
  finally have q: "x / 2 powi (k - int d) = of_int (m * 2 ^ d)" .
  have "fl p x = of_int (m * 2 ^ d) * 2 powi (k - int d)"
    unfolding ev q round_even_of_int ..
  also have "\<dots> = x" unfolding s3 x_def by simp
  finally show ?thesis unfolding x_def .
qed



lemma float64_exact: "\<bar>m\<bar> < 2 ^ 53 \<Longrightarrow> float64 (of_int m / 2 ^ n) = of_int m / 2 ^ n"
  using fl_exact[of m 53 "- int n"] by (simp add: float64_def power_int_minus_divide power_int_of_nat)

lemma float32_minus: "float32 (- x) = - float32 x"
  by (simp add: float32_def fl_minus)

lemma float64_minus: "float64 (- x) = - float64 x"
  by (simp add: float64_def fl_minus)


lemma float64_zero: "float64 0 = 0"
  by (simp add: float64_def fl_zero)

section \<open>Properties of the calibration grid\<close>

lemma linspace_nonneg:
  assumes "0 \<le> N"
  shows "\<exists>ys. linspace a b N = Inr ys \<and> length ys = nat N \<and>
           (\<forall>i<nat N. ys ! i = a + real i * ((b - a) / real_of_int (N - 1)))"
proof (cases "1 < N")
  case False
  with assms have "N = 0 \<or> N = 1" by linarith
  then show ?thesis by (auto simp: linspace_def)
next
  case True
  define zs where "zs = map (\<lambda>v. v + a) (map (\<lambda>v. v * ((b - a) / real_of_int (N - 1))) (map real [0..<nat N]))"
  have eq: "linspace a b N = Inr (zs[length zs - 1 := b])"
    using True by (simp add: linspace_def zs_def Let_def)
  have len: "length zs = nat N" by (simp add: zs_def)
  have nth: "(zs[length zs - 1 := b]) ! i = a + real i * ((b - a) / real_of_int (N - 1))"
    if "i < nat N" for i
  proof (cases "i = nat N - 1")
    case True
    have "real (nat N - 1) = real_of_int (N - 1)" using \<open>1 < N\<close> by simp
    moreover have "real_of_int (N - 1) \<noteq> 0" using \<open>1 < N\<close> by simp
    ultimately have "a + real i * ((b - a) / real_of_int (N - 1)) = b"
      using True by simp
    then show ?thesis using True that len by simp
  next
    case False
    then show ?thesis using that len by (simp add: zs_def)
  qed
  show ?thesis using eq len nth by auto
qed

lemma row_major_length:
  "length (concat (map (\<lambda>y. map (\<lambda>x. (x, y)) xs) ys)) = length ys * length xs"
  by (induction ys) auto

lemma row_major_nth:
  "r < length ys \<Longrightarrow> c < length xs \<Longrightarrow>
   concat (map (\<lambda>y. map (\<lambda>x. (x, y)) xs) ys) ! (r * length xs + c) = (xs ! c, ys ! r)"
proof (induction ys arbitrary: r)
  case Nil
  then show ?case by simp
next
  case (Cons y ys)
  show ?case
  proof (cases r)
    case 0
    then show ?thesis using Cons.prems by (simp add: nth_append)
  next
    case (Suc r')
    then have "r' < length ys" using Cons.prems by simp
    from Cons.IH[OF this Cons.prems(2)] Suc show ?thesis
      by (simp add: nth_append)
  qed
qed


lemma axis_bounds:
  assumes "0 \<le> N" "i < nat N"
  shows "0 \<le> real i * (7/10 / real_of_int (N - 1)) \<and> real i * (7/10 / real_of_int (N - 1)) \<le> 7/10"
proof (cases "1 < N")
  case False
  with assms have "i = 0" by linarith
  then show ?thesis by simp
next
  case True
  then have pos: "0 < real_of_int (N - 1)" by simp
  have "real i \<le> real_of_int (N - 1)" using assms by linarith
  define q where "q = real i / real_of_int (N - 1)"
  have le1: "q \<le> 1" using pos \<open>real i \<le> real_of_int (N - 1)\<close> by (simp add: q_def)
  have ge0: "0 \<le> q" using pos by (simp add: q_def)
  have eq: "real i * (7/10 / real_of_int (N - 1)) = 7/10 * q"
    by (simp add: q_def)
  have "0 \<le> 7/10 * q" using ge0 by simp
  moreover have "7/10 * q \<le> 7/10" using le1 by simp
  ultimately show ?thesis unfolding eq by blast
qed

text \<open>
  Claim C1. For every number \<open>N \<ge> 0\<close> of points per axis and margin 0.15, the
  grid has exactly \<open>N\<^sup>2\<close> targets; the target of row \<open>r\<close> and column \<open>c\<close> stands at
  position \<open>r * N + c\<close> of the sequence (row-major: a whole row, left to right, before
  the next one) and is \<open>(0.15 + c * h, 0.15 + r * h)\<close> with the common step
  \<open>h = 0.7 / (N - 1)\<close>, so the values of an axis are evenly spaced from 0.15 to 0.85;
  every coordinate lies in \<open>[0.15, 0.85]\<close>.
\<close>

theorem grid_points_row_major:
  assumes "0 \<le> N"
  shows "\<exists>g. grid_points N N 0.15 = Inr g \<and> length g = nat N * nat N \<and>
     (\<forall>r<nat N. \<forall>c<nat N. g ! (r * nat N + c) =
        (0.15 + real c * (0.7 / real_of_int (N - 1)), 0.15 + real r * (0.7 / real_of_int (N - 1)))) \<and>
     (\<forall>p\<in>set g. 0.15 \<le> fst p \<and> fst p \<le> 0.85 \<and> 0.15 \<le> snd p \<and> snd p \<le> 0.85)"
proof -
  obtain xs where xs: "linspace 0.15 (1 - 0.15) N = Inr xs" "length xs = nat N"
    and nth: "\<And>i. i < nat N \<Longrightarrow> xs ! i = 0.15 + real i * ((1 - 0.15 - 0.15) / real_of_int (N - 1))"
    using linspace_nonneg[OF assms, of "0.15" "1 - 0.15"] by blast
  have nth': "xs ! i = 0.15 + real i * (0.7 / real_of_int (N - 1))" if "i < nat N" for i
    using nth[OF that] by simp
  let ?g = "concat (map (\<lambda>y. map (\<lambda>x. (x, y)) xs) xs)"
  have g: "grid_points N N 0.15 = Inr ?g" using xs(1) by (simp add: grid_points_def)
  have len: "length ?g = nat N * nat N" by (simp add: row_major_length xs(2))
  have idx: "?g ! (r * nat N + c) =
        (0.15 + real c * (0.7 / real_of_int (N - 1)), 0.15 + real r * (0.7 / real_of_int (N - 1)))"
    if "r < nat N" "c < nat N" for r c
    using row_major_nth[of r xs c xs] that xs(2) nth' by simp
  have rng: "0.15 \<le> x \<and> x \<le> 0.85" if "x \<in> set xs" for x
  proof -
    from that obtain i where i: "i < nat N" "x = xs ! i"
      by (auto simp: in_set_conv_nth xs(2))
    from axis_bounds[OF assms i(1)] nth'[OF i(1)] i(2) show ?thesis by simp
  qed
  have "0.15 \<le> fst p \<and> fst p \<le> 0.85 \<and> 0.15 \<le> snd p \<and> snd p \<le> 0.85" if "p \<in> set ?g" for p
  proof -
    from that have "fst p \<in> set xs" "snd p \<in> set xs" by auto
    then show ?thesis using rng by blast
  qed
  with g len idx show ?thesis by blast
qed

theorem grid_points_row_major_witness:
  "(0::int) \<le> 2 \<and>
   (\<exists>g. grid_points 2 2 0.15 = Inr g \<and> length g = 4 \<and>
        g ! 1 = (0.85, 0.15) \<and> g ! 2 = (0.15, 0.85))"
proof -
  have h: "(0::int) \<le> 2" by simp
  from grid_points_row_major[OF h] obtain g where g: "grid_points 2 2 0.15 = Inr g"
    "length g = nat 2 * nat 2"
    and idx: "\<And>r c. r < nat 2 \<Longrightarrow> c < nat 2 \<Longrightarrow> g ! (r * nat 2 + c) =
        (0.15 + real c * (0.7 / real_of_int (2 - 1)), 0.15 + real r * (0.7 / real_of_int (2 - 1)))"
    by blast
  have "g ! 1 = (0.85, 0.15)" using idx[of 0 1] by simp
  moreover have "g ! 2 = (0.15, 0.85)" using idx[of 1 0] by simp
  ultimately show ?thesis using g by auto
qed

text \<open>
  Claim C10. With one point per axis the grid is the single target \<open>(0.15, 0.15)\<close>:
  the one-element spacing yields the lower endpoint (the margin corner), not the centre
  of the screen.
\<close>

theorem grid_points_single:
  "grid_points 1 1 0.15 = Inr [(0.15, 0.15)]"
  by (simp add: grid_points_def linspace_def)

section \<open>Properties of the calibration sampler\<close>

lemma dwell_more:
  "dwell d tgt c samples pre = Done out rest \<Longrightarrow>
   dwell d tgt c samples (pre @ xs) = Done out (rest @ xs)"
proof (induction pre arbitrary: c samples)
  case Nil
  then show ?case by (cases xs) (auto split: if_splits)
next
  case (Cons e es)
  then show ?case by (auto split: if_splits option.splits)
qed

lemma dwell_collects:
  assumes "c \<le> d"
    and "\<forall>e\<in>set evs. ret e \<longrightarrow> key e \<noteq> 27"
    and "d - c \<le> int (length (filter yields_feature evs))"
  shows "\<exists>used rest. evs = used @ rest \<and>
           dwell d tgt c samples evs = Done (samples @ map (sample_of tgt) (filter yields_feature used)) rest \<and>
           int (length (filter yields_feature used)) = d - c"
  using assms
proof (induction evs arbitrary: c samples)
  case Nil
  then have "c = d" by simp
  then show ?case by simp
next
  case (Cons e es)
  show ?case
  proof (cases "c < d")
    case False
    with Cons.prems(1) have "c = d" by simp
    then have "e # es = [] @ (e # es) \<and>
        dwell d tgt c samples (e # es) = Done (samples @ map (sample_of tgt) (filter yields_feature [])) (e # es) \<and>
        int (length (filter yields_feature [])) = d - c" by simp
    then show ?thesis by blast
  next
    case True
    have noesc: "\<forall>e\<in>set es. ret e \<longrightarrow> key e \<noteq> 27" "ret e \<longrightarrow> key e \<noteq> 27"
      using Cons.prems(2) by simp_all
    show ?thesis
    proof (cases "yields_feature e")
      case False
      then have step: "dwell d tgt c samples (e # es) = dwell d tgt c samples es"
        using True noesc(2) by (auto simp: yields_feature_def split: option.splits)
      have "d - c \<le> int (length (filter yields_feature es))"
        using Cons.prems(3) False by simp
      from Cons.IH[OF Cons.prems(1) noesc(1) this, of samples] obtain used rest where
        u: "es = used @ rest"
        "dwell d tgt c samples es = Done (samples @ map (sample_of tgt) (filter yields_feature used)) rest"
        "int (length (filter yields_feature used)) = d - c" by blast
      have "e # es = (e # used) @ rest \<and>
        dwell d tgt c samples (e # es) = Done (samples @ map (sample_of tgt) (filter yields_feature (e # used))) rest \<and>
        int (length (filter yields_feature (e # used))) = d - c"
        using u step False by simp
      then show ?thesis by blast
    next
      case yes: True
      then obtain fd where fd: "extracted e = Some fd" "ret e"
        by (auto simp: yields_feature_def)
      have step: "dwell d tgt c samples (e # es) = dwell d tgt (c + 1) (samples @ [sample_of tgt e]) es"
        using True noesc(2) fd by (simp add: sample_of_def)
      have le: "c + 1 \<le> d" using True by simp
      have "d - (c + 1) \<le> int (length (filter yields_feature es))"
        using Cons.prems(3) yes by simp
      from Cons.IH[OF le noesc(1) this, of "samples @ [sample_of tgt e]"] obtain used rest where
        u: "es = used @ rest"
        "dwell d tgt (c + 1) (samples @ [sample_of tgt e]) es =
           Done ((samples @ [sample_of tgt e]) @ map (sample_of tgt) (filter yields_feature used)) rest"
        "int (length (filter yields_feature used)) = d - (c + 1)" by blast
      have "e # es = (e # used) @ rest \<and>
        dwell d tgt c samples (e # es) = Done (samples @ map (sample_of tgt) (filter yields_feature (e # used))) rest \<and>
        int (length (filter yields_feature (e # used))) = d - c"
        using u step yes by simp
      then show ?thesis by blast
    qed
  qed
qed

text \<open>
  Claim C3. For every target, let \<open>pre\<close> be frames on which ESC is not pressed while
  a frame is shown and which hold at least \<open>dwell_frames\<close> frames with a feature;
  whatever frames \<open>post\<close> follow, the dwell phase ends within \<open>pre\<close> having appended
  exactly \<open>dwell_frames\<close> samples, one for each frame with a feature among the frames
  it used, each labelled with the target's \<open>(tx, ty)\<close>. Failed reads and failed
  extractions are used up without counting, so the number of frames used is at least
  \<open>dwell_frames\<close>, and larger as soon as one of them did not yield a feature.
\<close>

theorem dwell_quota_exact:
  assumes "0 \<le> dwell_frames"
    and "\<forall>e\<in>set pre. ret e \<longrightarrow> key e \<noteq> 27"
    and "dwell_frames \<le> int (length (filter yields_feature pre))"
  shows "\<exists>new used rest.
           dwell dwell_frames tgt 0 samples (pre @ post) = Done (samples @ new) (rest @ post) \<and>
           pre = used @ rest \<and>
           int (length new) = dwell_frames \<and>
           (\<forall>s\<in>set new. xy s = [fst tgt, snd tgt]) \<and>
           new = map (sample_of tgt) (filter yields_feature used) \<and>
           dwell_frames \<le> int (length used) \<and>
           ((\<exists>e\<in>set used. \<not> yields_feature e) \<longrightarrow> dwell_frames < int (length used))"
proof -
  from dwell_collects[of 0 dwell_frames pre tgt samples] assms obtain used rest where
    u: "pre = used @ rest"
    "dwell dwell_frames tgt 0 samples pre = Done (samples @ map (sample_of tgt) (filter yields_feature used)) rest"
    "int (length (filter yields_feature used)) = dwell_frames" by auto
  let ?new = "map (sample_of tgt) (filter yields_feature used)"
  have run: "dwell dwell_frames tgt 0 samples (pre @ post) = Done (samples @ ?new) (rest @ post)"
    using dwell_more[OF u(2)] .
  have len: "int (length ?new) = dwell_frames" using u(3) by simp
  have lab: "\<forall>s\<in>set ?new. xy s = [fst tgt, snd tgt]" by (auto simp: sample_of_def)
  have ge: "dwell_frames \<le> int (length used)"
    using u(3) length_filter_le[of yields_feature used] by linarith
  have strict: "dwell_frames < int (length used)" if "\<exists>e\<in>set used. \<not> yields_feature e"
    using u(3) length_filter_less[of _ used yields_feature] that by fastforce
  show ?thesis using u(1) run len lab ge strict by blast
qed

theorem dwell_quota_exact_witness:
  "(0 :: int) \<le> 2 \<and>
   list_all (\<lambda>e. ret e \<longrightarrow> key e \<noteq> 27) [face_seen, lost_frame, no_face, face_seen] \<and>
   2 \<le> int (length (filter yields_feature [face_seen, lost_frame, no_face, face_seen])) \<and>
   (\<exists>new used rest.
      dwell 2 (3 / 20, 3 / 20) 0 [] ([face_seen, lost_frame, no_face, face_seen] @ [esc_pressed])
        = Done ([] @ new) (rest @ [esc_pressed]) \<and>
      [face_seen, lost_frame, no_face, face_seen] = used @ rest \<and>
      int (length new) = 2 \<and>
      new = map (sample_of (3 / 20, 3 / 20)) (filter yields_feature used) \<and>
      2 < int (length used))"
proof -
  let ?pre = "[face_seen, lost_frame, no_face, face_seen]"
  have h1: "(0 :: int) \<le> 2" by simp
  have h2: "\<forall>e\<in>set ?pre. ret e \<longrightarrow> key e \<noteq> 27"
    by (simp add: face_seen_def no_face_def lost_frame_def)
  have h3: "2 \<le> int (length (filter yields_feature ?pre))"
    by (simp add: yields_feature_def face_seen_def no_face_def lost_frame_def)
  from dwell_quota_exact[OF h1 h2 h3, of "(3 / 20, 3 / 20)" "[]" "[esc_pressed]"]
  obtain new used rest where
    r: "dwell 2 (3 / 20, 3 / 20) 0 [] (?pre @ [esc_pressed]) = Done ([] @ new) (rest @ [esc_pressed])"
    and u: "?pre = used @ rest" and n: "int (length new) = 2"
    and m: "new = map (sample_of (3 / 20, 3 / 20)) (filter yields_feature used)"
    and s: "(\<exists>e\<in>set used. \<not> yields_feature e) \<longrightarrow> 2 < int (length used)"
    by blast
  have "length (filter yields_feature used) = 2" using n m by simp
  then have "used \<noteq> []" by auto
  then have "hd used = face_seen" using u by (cases used) auto
  have "\<exists>e\<in>set used. \<not> yields_feature e"
  proof (rule ccontr)
    assume "\<not> (\<exists>e\<in>set used. \<not> yields_feature e)"
    then have all: "\<forall>e\<in>set used. yields_feature e" by blast
    then have "length used = 2"
      using \<open>length (filter yields_feature used) = 2\<close> by (simp add: filter_id_conv[THEN iffD2])
    then have "used = take 2 ?pre" using u by (metis append_eq_conv_conj)
    then have "lost_frame \<in> set used" by simp
    with all have "yields_feature lost_frame" by blast
    then show False by (simp add: yields_feature_def lost_frame_def)
  qed
  with s have "2 < int (length used)" by blast
  with r u n m have "\<exists>new used rest.
      dwell 2 (3 / 20, 3 / 20) 0 [] (?pre @ [esc_pressed]) = Done ([] @ new) (rest @ [esc_pressed]) \<and>
      ?pre = used @ rest \<and> int (length new) = 2 \<and>
      new = map (sample_of (3 / 20, 3 / 20)) (filter yields_feature used) \<and>
      2 < int (length used)"
    by blast
  moreover have "list_all (\<lambda>e. ret e \<longrightarrow> key e \<noteq> 27) ?pre" using h2 by (simp add: list_all_iff)
  ultimately show ?thesis using h1 h3 by blast
qed

lemma warmup_more:
  "warmup n pre = Done u rest \<Longrightarrow> warmup n (pre @ xs) = Done u (rest @ xs)"
proof (induction pre arbitrary: n)
  case Nil
  then show ?case by (cases xs) (auto split: if_splits)
next
  case (Cons e es)
  then show ?case by (auto split: if_splits)
qed

lemma warmup_esc:
  "warmup n pre = Starved ph \<Longrightarrow> ret e \<Longrightarrow> key e = 27 \<Longrightarrow> warmup n (pre @ e # post) = Escape"
  by (induction pre arbitrary: n) (auto split: if_splits)

lemma dwell_esc:
  "dwell d tgt c samples pre = Starved ph \<Longrightarrow> ret e \<Longrightarrow> key e = 27 \<Longrightarrow>
   dwell d tgt c samples (pre @ e # post) = Escape"
  by (induction pre arbitrary: c samples) (auto split: if_splits option.splits)

lemma flash_ack_more:
  "flash_ack k pre = Done u rest \<Longrightarrow> flash_ack k (pre @ xs) = Done u (rest @ xs)"
  by (auto simp: flash_ack_def split: if_splits)

lemma flash_ack_starved: "flash_ack k pre = Starved ph \<Longrightarrow> ph = Flash"
  by (auto simp: flash_ack_def split: if_splits)

lemma flash_ack_no_escape: "flash_ack k pre \<noteq> Escape"
  by (simp add: flash_ack_def two_reads_def no_face_def)

lemma targets_loop_esc:
  assumes "targets_loop wu dw ack ps samples pre = Starved ph" and "ph \<noteq> Flash"
    and "ret e" and "key e = 27"
  shows "targets_loop wu dw ack ps samples (pre @ e # post) = Escape"
  using assms(1)
proof (induction ps arbitrary: samples pre)
  case Nil
  then show ?case by simp
next
  case (Cons ip ps)
  obtain i p where ip: "ip = (i, p)" by (cases ip)
  show ?case
  proof (cases "warmup wu pre")
    case Escape
    with Cons.prems ip show ?thesis by simp
  next
    case (Starved ph')
    from warmup_esc[OF this assms(3,4)] ip show ?thesis by simp
  next
    case (Done u evs1)
    note w = warmup_more[OF Done, of "e # post"]
    show ?thesis
    proof (cases "dwell dw p 0 samples evs1")
      case Escape
      with Cons.prems ip Done show ?thesis by simp
    next
      case (Starved ph')
      from dwell_esc[OF this assms(3,4)] ip w show ?thesis by simp
    next
      case d: (Done samples' evs2)
      note dm = dwell_more[OF d, of "e # post"]
      show ?thesis
      proof (cases "flash_ack (ack i) evs2")
        case Escape
        then show ?thesis by (simp add: flash_ack_no_escape)
      next
        case (Starved ph')
        then have "ph' = Flash" by (rule flash_ack_starved)
        with Starved Cons.prems ip Done d assms(2) show ?thesis by simp
      next
        case f: (Done u' evs3)
        note fm = flash_ack_more[OF f, of "e # post"]
        have "targets_loop wu dw ack ps samples' evs3 = Starved ph"
          using Cons.prems ip Done d f by simp
        from Cons.IH[OF this] show ?thesis using ip w dm fm by simp
      qed
    qed
  qed
qed

lemma run_five_frames:
  "run_calibration (1280, 720) 2 1 1 ''out.csv'' two_reads [face_seen, face_seen, no_face, no_face, face_seen] old_world
     = (Blocked Dwell, old_world\<lparr>dirs := insert ''data'' (dirs old_world)\<rparr>)"
  by (simp add: run_calibration_def ensure_dir_def old_world_def grid_points_def linspace_def
      upt_conv_Cons enumerate_eq_zip face_seen_def flash_ack_def two_reads_def no_face_def)

text \<open>
  Claim C4. Whenever a run has used up the frames \<open>pre\<close> and waits for the next frame
  in the warmup or the dwell phase of some target, and ESC is pressed on the next shown
  frame, the run returns at once: whatever frames follow, the result is the same, nothing
  is printed and no file is written or changed. The world differs from the initial one
  only by the directory \<open>data\<close>, so the samples of the current and of all earlier targets
  are dropped and an output file of an earlier run stays as it was.
\<close>

theorem abort_discards_all:
  assumes "fst (run_calibration window_size points_per_grid dwell_frames warmup_frames out_csv ack pre wld)
             = Blocked ph"
    and "ph = Warmup \<or> ph = Dwell" and "ret e" and "key e = 27"
  shows "run_calibration window_size points_per_grid dwell_frames warmup_frames out_csv ack
           (pre @ e # post) wld
         = (Returned PyNone, wld\<lparr>dirs := insert ''data'' (dirs wld)\<rparr>)"
proof -
  from assms(1) obtain w1 points where
    w1: "ensure_dir ''data'' wld = Inr w1" and
    pts: "grid_points points_per_grid points_per_grid 0.15 = Inr points" and
    loop: "targets_loop warmup_frames dwell_frames ack (List.enumerate 1 points) [] pre = Starved ph"
    by (auto simp: run_calibration_def split: sum.splits progress.splits)
  have "w1 = wld\<lparr>dirs := insert ''data'' (dirs wld)\<rparr>"
    using w1 by (auto simp: ensure_dir_def split: if_splits)
  moreover have "ph \<noteq> Flash" using assms(2) by auto
  then have "targets_loop warmup_frames dwell_frames ack (List.enumerate 1 points) [] (pre @ e # post) = Escape"
    using targets_loop_esc[OF loop _ assms(3,4)] by blast
  ultimately show ?thesis using w1 pts by (simp add: run_calibration_def)
qed

theorem abort_discards_all_witness:
  "fst (run_calibration (1280, 720) 2 1 1 ''out.csv'' two_reads [face_seen, face_seen, no_face, no_face, face_seen] old_world)
     = Blocked Dwell \<and>
   (Dwell = Warmup \<or> Dwell = Dwell) \<and> ret esc_pressed \<and> key esc_pressed = 27 \<and>
   run_calibration (1280, 720) 2 1 1 ''out.csv'' two_reads
     ([face_seen, face_seen, no_face, no_face, face_seen] @ esc_pressed # [face_seen, face_seen]) old_world
     = (Returned PyNone, old_world\<lparr>dirs := insert ''data'' (dirs old_world)\<rparr>) \<and>
   files (old_world\<lparr>dirs := insert ''data'' (dirs old_world)\<rparr>) ''out.csv''
     = Some [csv_header, map Num [0, 0, 0, 0, 1 / 2, 1 / 2]]"
proof -
  have h1: "fst (run_calibration (1280, 720) 2 1 1 ''out.csv'' two_reads
               [face_seen, face_seen, no_face, no_face, face_seen] old_world) = Blocked Dwell"
    by (simp add: run_five_frames)
  have h2: "Dwell = Warmup \<or> Dwell = Dwell" by simp
  have h3: "ret esc_pressed" by (simp add: esc_pressed_def face_seen_def)
  have h4: "key esc_pressed = 27" by (simp add: esc_pressed_def)
  have "files (old_world\<lparr>dirs := insert ''data'' (dirs old_world)\<rparr>) ''out.csv''
     = Some [csv_header, map Num [0, 0, 0, 0, 1 / 2, 1 / 2]]"
    by (simp add: old_world_def)
  with abort_discards_all[OF h1 h2 h3 h4, of "[face_seen, face_seen]"] h1 h2 h3 h4
  show ?thesis by blast
qed

lemma run_completes:
  "run_calibration (1280, 720) 1 1 1 ''out.csv'' two_reads [face_seen, face_seen, no_face, no_face] old_world
     = (Returned PyNone,
        old_world\<lparr>dirs := insert ''data'' (dirs old_world),
          files := (files old_world)(''out.csv'' \<mapsto>
            [csv_header, map Num [- 1 / 4, 0, 1 / 4, 0, 3 / 20, 3 / 20]]),
          stdout := [SavedSamples 1 ''out.csv'']\<rparr>)"
  by (simp add: run_calibration_def ensure_dir_def write_csv_def old_world_def grid_points_def
      linspace_def enumerate_eq_zip face_seen_def flash_ack_def tolist_def two_reads_def no_face_def)

lemma run_aborts:
  "run_calibration (1280, 720) 1 1 1 ''out.csv'' two_reads [face_seen, esc_pressed] old_world
     = (Returned PyNone, old_world\<lparr>dirs := insert ''data'' (dirs old_world)\<rparr>)"
  by (simp add: run_calibration_def ensure_dir_def old_world_def grid_points_def
      linspace_def enumerate_eq_zip face_seen_def esc_pressed_def flash_ack_def two_reads_def no_face_def)

text \<open>
  Claim C6, as stated, fails: a run that completes with one collected sample returns
  \<open>None\<close>, not the count 1, and an aborted run returns the same \<open>None\<close>.
\<close>

theorem run_calibration_result_counterexample:
  "fst (run_calibration (1280, 720) 1 1 1 ''out.csv'' two_reads [face_seen, face_seen, no_face, no_face] old_world)
     = Returned PyNone \<and>
   stdout (snd (run_calibration (1280, 720) 1 1 1 ''out.csv'' two_reads [face_seen, face_seen, no_face, no_face] old_world))
     = [SavedSamples 1 ''out.csv''] \<and>
   Returned PyNone \<noteq> Returned (PyInt 1) \<and>
   fst (run_calibration (1280, 720) 1 1 1 ''out.csv'' two_reads [face_seen, esc_pressed] old_world)
     = Returned PyNone"
  by (simp add: run_completes run_aborts)

text \<open>
  Claim C6, amended. Whenever \<open>run_calibration\<close> returns, it returns \<open>None\<close>. The two
  ways of returning differ in their effects only: after an abort the world is the
  initial one with the directory \<open>data\<close>; after a normal completion the output file
  holds the header and one row per collected sample, and the number of collected samples
  has been printed.
\<close>

theorem run_calibration_returns_none:
  assumes "run_calibration window_size points_per_grid dwell_frames warmup_frames out_csv ack evs wld
             = (Returned v, wld')"
  shows "v = PyNone \<and>
         (\<exists>points. grid_points points_per_grid points_per_grid 0.15 = Inr points \<and>
            (case targets_loop warmup_frames dwell_frames ack (List.enumerate 1 points) [] evs of
               Escape \<Rightarrow> wld' = wld\<lparr>dirs := insert ''data'' (dirs wld)\<rparr>
             | Done samples rest \<Rightarrow>
                 wld' = wld\<lparr>dirs := insert ''data'' (dirs wld),
                            files := (files wld)(out_csv \<mapsto> csv_header # map (\<lambda>s. map Num (feat s @ xy s)) samples),
                            stdout := stdout wld @ [SavedSamples (length samples) out_csv]\<rparr>
             | Starved ph \<Rightarrow> False))"
  using assms
  by (auto simp: run_calibration_def ensure_dir_def write_csv_def
      split: sum.splits progress.splits if_splits)

theorem run_calibration_returns_none_witness:
  "run_calibration (1280, 720) 1 1 1 ''out.csv'' two_reads [face_seen, face_seen, no_face, no_face] old_world
     = (Returned PyNone,
        old_world\<lparr>dirs := insert ''data'' (dirs old_world),
          files := (files old_world)(''out.csv'' \<mapsto>
            [csv_header, map Num [- 1 / 4, 0, 1 / 4, 0, 3 / 20, 3 / 20]]),
          stdout := [SavedSamples 1 ''out.csv'']\<rparr>) \<and>
   PyNone = PyNone \<and>
   (\<exists>points. grid_points 1 1 0.15 = Inr points \<and>
      (\<exists>samples rest. targets_loop 1 1 two_reads (List.enumerate 1 points) [] [face_seen, face_seen, no_face, no_face]
         = Done samples rest \<and> length samples = 1))"
proof -
  from run_calibration_returns_none[OF run_completes] obtain points where
    p: "grid_points 1 1 0.15 = Inr points"
    and c: "(case targets_loop 1 1 two_reads (List.enumerate 1 points) [] [face_seen, face_seen, no_face, no_face] of
               Escape \<Rightarrow> old_world\<lparr>dirs := insert ''data'' (dirs old_world),
          files := (files old_world)(''out.csv'' \<mapsto>
            [csv_header, map Num [- 1 / 4, 0, 1 / 4, 0, 3 / 20, 3 / 20]]),
          stdout := [SavedSamples 1 ''out.csv'']\<rparr> = old_world\<lparr>dirs := insert ''data'' (dirs old_world)\<rparr>
             | Done samples rest \<Rightarrow>
                 old_world\<lparr>dirs := insert ''data'' (dirs old_world),
          files := (files old_world)(''out.csv'' \<mapsto>
            [csv_header, map Num [- 1 / 4, 0, 1 / 4, 0, 3 / 20, 3 / 20]]),
          stdout := [SavedSamples 1 ''out.csv'']\<rparr> = old_world\<lparr>dirs := insert ''data'' (dirs old_world),
                            files := (files old_world)(''out.csv'' \<mapsto> csv_header # map (\<lambda>s. map Num (feat s @ xy s)) samples),
                            stdout := stdout old_world @ [SavedSamples (length samples) ''out.csv'']\<rparr>
             | Starved ph \<Rightarrow> False)"
    by blast
  have "\<exists>samples rest. targets_loop 1 1 two_reads (List.enumerate 1 points) [] [face_seen, face_seen, no_face, no_face]
         = Done samples rest \<and> length samples = 1"
  proof (cases "targets_loop 1 1 two_reads (List.enumerate 1 points) [] [face_seen, face_seen, no_face, no_face]")
    case (Done samples rest)
    with c have "stdout (old_world\<lparr>dirs := insert ''data'' (dirs old_world),
          files := (files old_world)(''out.csv'' \<mapsto>
            [csv_header, map Num [- 1 / 4, 0, 1 / 4, 0, 3 / 20, 3 / 20]]),
          stdout := [SavedSamples 1 ''out.csv'']\<rparr>) = stdout old_world @ [SavedSamples (length samples) ''out.csv'']"
      by simp
    then have "length samples = 1" by (simp add: old_world_def)
    with Done show ?thesis by simp
  next
    case Escape
    with c have "stdout (old_world\<lparr>dirs := insert ''data'' (dirs old_world),
          files := (files old_world)(''out.csv'' \<mapsto>
            [csv_header, map Num [- 1 / 4, 0, 1 / 4, 0, 3 / 20, 3 / 20]]),
          stdout := [SavedSamples 1 ''out.csv'']\<rparr>) = stdout (old_world\<lparr>dirs := insert ''data'' (dirs old_world)\<rparr>)"
      by simp
    then show ?thesis by (simp add: old_world_def)
  next
    case (Starved ph)
    with c show ?thesis by simp
  qed
  with p run_completes show ?thesis by blast
qed

section \<open>Properties of the realtime estimator\<close>























text \<open>
  Claim C7. In an iteration whose frame was read but yields no feature, the smoothed
  estimate keeps its value (\<open>None\<close> stays \<open>None\<close>) and the frame is shown without
  overlay; the loop goes on from that state, unless ESC ends it or the pacing raises.
\<close>

theorem no_face_keeps_estimate:
  assumes "ret e" and "extracted e = None"
  shows "pred_smooth (snd (realtime_iter mx my window_size fps_target st e)) = pred_smooth st \<and>
         shown (snd (realtime_iter mx my window_size fps_target st e)) = shown st @ [None] \<and>
         realtime_loop mx my window_size fps_target st (e # es) =
           (if key e = 27 then (Returned PyNone, st\<lparr>shown := shown st @ [None]\<rparr>)
            else if fps_target = 0 then (Raised ZeroDivisionError, st\<lparr>shown := shown st @ [None]\<rparr>)
            else realtime_loop mx my window_size fps_target (st\<lparr>shown := shown st @ [None]\<rparr>) es)"
  using assms by (simp add: realtime_iter_def)

theorem no_face_keeps_estimate_witness:
  "ret no_face \<and> extracted no_face = None \<and>
   pred_smooth (snd (realtime_iter (\<lambda>_. 1 / 2) (\<lambda>_. 1 / 2) (1280, 720) 30
      \<lparr>pred_smooth = Some (3 / 10, 2 / 5), shown = []\<rparr> no_face)) = Some (3 / 10, 2 / 5) \<and>
   pred_smooth (snd (realtime_iter (\<lambda>_. 1 / 2) (\<lambda>_. 1 / 2) (1280, 720) 30
      \<lparr>pred_smooth = None, shown = []\<rparr> no_face)) = None \<and>
   shown (snd (realtime_iter (\<lambda>_. 1 / 2) (\<lambda>_. 1 / 2) (1280, 720) 30
      \<lparr>pred_smooth = Some (3 / 10, 2 / 5), shown = []\<rparr> no_face)) = [None]"
proof -
  have h1: "ret no_face" by (simp add: no_face_def)
  have h2: "extracted no_face = None" by (simp add: no_face_def)
  from no_face_keeps_estimate[OF h1 h2, of "\<lambda>_. 1 / 2" "\<lambda>_. 1 / 2" "(1280, 720)" 30
      "\<lparr>pred_smooth = Some (3 / 10, 2 / 5), shown = []\<rparr>" "[]"]
    no_face_keeps_estimate[OF h1 h2, of "\<lambda>_. 1 / 2" "\<lambda>_. 1 / 2" "(1280, 720)" 30
      "\<lparr>pred_smooth = None, shown = []\<rparr>" "[]"]
    h1 h2
  show ?thesis by simp
qed

section \<open>Properties of the model trainer\<close>

lemma dirname_models: "dirname ''models/m.joblib'' = ''models''"
  by (simp add: dirname_def)

lemma float64_three_halves: "float64 (3 / 2) = 3 / 2"
  using float64_exact[of 3 1] by simp

lemma train_two_rows:
  "train_model fit0 score0 perm0 ''data/two.csv'' ''models/m.joblib'' (3 / 4) 42 train_world
     = (Raised ValueError, train_world\<lparr>dirs := insert ''models'' (dirs train_world)\<rparr>)"
  by (simp add: train_model_def dirname_models ensure_dir_def train_world_def loadtxt_def
      slice_cols_def train_test_split_def csv_header_def float64_three_halves)

lemma train_malformed:
  "train_model fit0 score0 perm0 ''data/bad.csv'' ''models/m.joblib'' (1 / 5) 42 train_world
     = (Raised ValueError, train_world\<lparr>dirs := insert ''models'' (dirs train_world)\<rparr>)"
  by (simp add: train_model_def dirname_models ensure_dir_def train_world_def loadtxt_def
      csv_header_def)

lemma loadtxt_well_formed:
  assumes "files wld csv_path = Some (hdr # body)" and "csv_path \<notin> dirs wld"
    and "list_all (\<lambda>r. length r = 6 \<and> list_all is_num r) body"
  shows "loadtxt csv_path wld =
     Inr (case body of [] \<Rightarrow> Arr1 [] | [r] \<Rightarrow> Arr1 (map num_of r)
          | _ \<Rightarrow> Arr2 (map (map num_of) body))"
proof -
  have ne: "filter (\<lambda>r. r \<noteq> []) body = body"
    using assms(3) by (auto simp: list_all_iff filter_id_conv)
  have nums: "list_all (list_all is_num) body"
    using assms(3) by (auto simp: list_all_iff)
  have cols: "list_all (\<lambda>r. length r = length (hd body)) body"
    using assms(3) by (cases body) (auto simp: list_all_iff)
  show ?thesis using assms(1,2) ne nums cols by (simp add: loadtxt_def)
qed

lemma loadtxt_not_numeric:
  assumes "files wld csv_path = Some (hdr # body)" and "csv_path \<notin> dirs wld"
    and "\<exists>r\<in>set body. \<not> list_all is_num r"
  shows "loadtxt csv_path wld = Inl ValueError"
proof -
  from assms(3) obtain r where r: "r \<in> set body" "\<not> list_all is_num r" by blast
  then have "r \<noteq> []" by auto
  with r have "r \<in> set (filter (\<lambda>r. r \<noteq> []) body)" by simp
  with r(2) have "\<not> list_all (list_all is_num) (filter (\<lambda>r. r \<noteq> []) body)"
    by (auto simp: list_all_iff)
  then show ?thesis using assms(1,2) by (simp add: loadtxt_def)
qed

text \<open>
  Claim C8, as stated, fails: a dataset of two rows with test fraction 0.75 leaves no
  training row, and the error raised is the \<open>ValueError\<close> that a dataset file with a
  field that is not a number raises as well.
\<close>

theorem insufficient_rows_counterexample:
  "fst (train_model fit0 score0 perm0 ''data/two.csv'' ''models/m.joblib'' (3 / 4) 42 train_world)
     = Raised ValueError \<and>
   fst (train_model fit0 score0 perm0 ''data/bad.csv'' ''models/m.joblib'' (1 / 5) 42 train_world)
     = Raised ValueError"
  by (simp add: train_two_rows train_malformed)

text \<open>
  Claim C8, amended. Let the dataset file exist and the test fraction lie in \<open>(0, 1)\<close>.
  If the file is well formed (numeric rows of six columns) and holds too few rows, that
  is at most one data row or no more rows than the test split \<open>ceil(t * n)\<close> takes,
  \<open>train_model\<close> raises before anything is fitted, printed or saved: \<open>IndexError\<close> when
  the file holds at most one data row (the loaded array is one-dimensional),
  \<open>ValueError\<close> otherwise. A file with a field that is not a number raises \<open>ValueError\<close>
  as well (in a file without comment characters), so the two failures are not told
  apart by their kind.
\<close>

theorem insufficient_rows_error:
  assumes dir: "ensure_dir (dirname out_path) wld = Inr w1"
    and csv: "files wld csv_path = Some (hdr # body)"
    and notdir: "csv_path \<notin> dirs w1"
    and t: "0 < test_size" "test_size < 1"
  shows "(list_all (\<lambda>r. length r = 6 \<and> list_all is_num r) body \<and>
          (length body \<le> 1 \<or>
           length body \<le> nat \<lceil>float64 (test_size * real (length body))\<rceil>) \<longrightarrow>
          train_model fit score perm csv_path out_path test_size random_state wld =
            (Raised (if length body \<le> 1 then IndexError else ValueError), w1)) \<and>
         (list_all (list_all no_comment) body \<and> (\<exists>r\<in>set body. \<not> list_all is_num r) \<longrightarrow>
          train_model fit score perm csv_path out_path test_size random_state wld =
            (Raised ValueError, w1))"
proof (intro conjI impI)
  have w1: "files w1 = files wld"
    using dir by (auto simp: ensure_dir_def split: if_splits)
  {
    assume "list_all (list_all no_comment) body \<and> (\<exists>r\<in>set body. \<not> list_all is_num r)"
    then have "\<exists>r\<in>set body. \<not> list_all is_num r" by blast
    then have "loadtxt csv_path w1 = Inl ValueError"
      using loadtxt_not_numeric[of w1 csv_path hdr body] csv notdir w1 by simp
    then show "train_model fit score perm csv_path out_path test_size random_state wld =
            (Raised ValueError, w1)"
      using dir by (simp add: train_model_def)
  }
  assume a: "list_all (\<lambda>r. length r = 6 \<and> list_all is_num r) body \<and>
          (length body \<le> 1 \<or>
           length body \<le> nat \<lceil>float64 (test_size * real (length body))\<rceil>)"
  then have wellformed: "list_all (\<lambda>r. length r = 6 \<and> list_all is_num r) body"
    and few: "length body \<le> 1 \<or>
           length body \<le> nat \<lceil>float64 (test_size * real (length body))\<rceil>"
    by blast+
  have load: "loadtxt csv_path w1 =
     Inr (case body of [] \<Rightarrow> Arr1 [] | [r] \<Rightarrow> Arr1 (map num_of r)
          | _ \<Rightarrow> Arr2 (map (map num_of) body))"
    using loadtxt_well_formed[of w1 csv_path hdr body] csv notdir wellformed w1 by simp
  show "train_model fit score perm csv_path out_path test_size random_state wld =
            (Raised (if length body \<le> 1 then IndexError else ValueError), w1)"
  proof (cases "length body \<le> 1")
    case True
    then obtain v where "loadtxt csv_path w1 = Inr (Arr1 v)"
      using load by (cases body rule: list.exhaust; cases "tl body") auto
    then show ?thesis using True dir by (simp add: train_model_def slice_cols_def)
  next
    case False
    then have n2: "2 \<le> length body" by simp
    then have arr: "loadtxt csv_path w1 = Inr (Arr2 (map (map num_of) body))"
      using load by (cases body rule: list.exhaust; cases "tl body") auto
    from few False
    have "length body - nat \<lceil>float64 (test_size * real (length body))\<rceil> = 0" by simp
    then have "train_test_split perm (map (\<lambda>r. take (4 - 0) (drop 0 r)) (map (map num_of) body))
        (map (\<lambda>r. take (6 - 4) (drop 4 r)) (map (map num_of) body)) test_size random_state
        = Inl ValueError"
      using t by (simp add: train_test_split_def)
    then show ?thesis using False dir arr by (simp add: train_model_def slice_cols_def)
  qed
qed

theorem insufficient_rows_error_witness:
  "(0 :: real) < 3 / 4 \<and> (3 / 4 :: real) < 1 \<and>
   ensure_dir (dirname ''models/m.joblib'') train_world
     = Inr (train_world\<lparr>dirs := insert ''models'' (dirs train_world)\<rparr>) \<and>
   train_model fit0 score0 perm0 ''data/two.csv'' ''models/m.joblib'' (3 / 4) 42 train_world
     = (Raised ValueError, train_world\<lparr>dirs := insert ''models'' (dirs train_world)\<rparr>) \<and>
   train_model fit0 score0 perm0 ''data/bad.csv'' ''models/m.joblib'' (3 / 4) 42 train_world
     = (Raised ValueError, train_world\<lparr>dirs := insert ''models'' (dirs train_world)\<rparr>)"
proof -
  let ?two = "[map Num [0, 0, 0, 0, 3 / 20, 3 / 20], map Num [1, 1, 1, 1, 17 / 20, 17 / 20 :: real]]"
  let ?bad = "[[Num 0, Str ''abc'', Num 0, Num 0, Num (3 / 20), Num (3 / 20)],
               map Num [1, 1, 1, 1, 17 / 20, 17 / 20 :: real]]"
  let ?w1 = "train_world\<lparr>dirs := insert ''models'' (dirs train_world)\<rparr>"
  have dir: "ensure_dir (dirname ''models/m.joblib'') train_world = Inr ?w1"
    by (simp add: dirname_models ensure_dir_def train_world_def)
  have two: "files train_world ''data/two.csv'' = Some (csv_header # ?two)"
    by (simp add: train_world_def)
  have bad: "files train_world ''data/bad.csv'' = Some (csv_header # ?bad)"
    by (simp add: train_world_def)
  have nd2: "''data/two.csv'' \<notin> dirs ?w1" by (simp add: train_world_def)
  have ndb: "''data/bad.csv'' \<notin> dirs ?w1" by (simp add: train_world_def)
  have t: "(0 :: real) < 3 / 4" "(3 / 4 :: real) < 1" by simp_all
  have few: "list_all (\<lambda>r. length r = 6 \<and> list_all is_num r) ?two \<and>
          (length ?two \<le> 1 \<or> length ?two \<le> nat \<lceil>float64 (3 / 4 * real (length ?two))\<rceil>)"
    by (simp add: float64_three_halves)
  have str: "list_all (list_all no_comment) ?bad \<and> (\<exists>r\<in>set ?bad. \<not> list_all is_num r)"
    by simp
  from insufficient_rows_error[OF dir two nd2 t, of fit0 score0 perm0 42] few
  have 1: "train_model fit0 score0 perm0 ''data/two.csv'' ''models/m.joblib'' (3 / 4) 42 train_world
     = (Raised ValueError, ?w1)"
    by simp
  from insufficient_rows_error[OF dir bad ndb t, of fit0 score0 perm0 42] str
  have 2: "train_model fit0 score0 perm0 ''data/bad.csv'' ''models/m.joblib'' (3 / 4) 42 train_world
     = (Raised ValueError, ?w1)"
    by blast
  from dir t 1 2 show ?thesis by blast
qed

end
